theory Spec2Isabelle
  imports Main "HOL-Library.Multiset"
begin

section \<open>Data model\<close>

text \<open>
  A JavaScript number, as far as this program can make one. \<^verbatim>\<open>parseInt\<close> returns
  \<^verbatim>\<open>NaN\<close>, an infinity, the negative zero or a double whose value is an integer, and the
  only arithmetic in the program is the subtraction of two such numbers. \<open>Finite n\<close> is the
  double of integer value \<open>n\<close>; fractions never arise.
\<close>

datatype number = NaN | Infinity | NegInfinity | NegZero | Finite int

text \<open>The number of binary digits of a natural number.\<close>

fun bitLength :: "nat \<Rightarrow> nat" where
  "bitLength n = (if n = 0 then 0 else Suc (bitLength (n div 2)))"

declare bitLength.simps [simp del]

text \<open>
  The double nearest to an integer (ties to the even significand, as IEEE 754 rounds): an
  integer below \<open>2 ^ 53\<close> in magnitude is a double; a larger one keeps its 53 leading binary
  digits, rounded, and becomes an infinity when that reaches \<open>2 ^ 1024\<close>.
\<close>

definition toNumber :: "int \<Rightarrow> number" where
  "toNumber x =
     (let m = nat \<bar>x\<bar>
      in if m < 2 ^ 53 then Finite x
         else
           let e = bitLength m - 53;
               q = m div 2 ^ e;
               r = m mod 2 ^ e;
               q' = (if 2 ^ e < 2 * r \<or> (2 * r = 2 ^ e \<and> odd q) then q + 1 else q);
               v = int (q' * 2 ^ e)
           in if 2 ^ 1024 \<le> v then (if x < 0 then NegInfinity else Infinity)
              else Finite (if x < 0 then - v else v))"

fun isNaN :: "number \<Rightarrow> bool" where
  "isNaN NaN = True"
| "isNaN _ = False"

text \<open>\<^verbatim>\<open>Number.isFinite\<close>: neither \<^verbatim>\<open>NaN\<close> nor an infinity.\<close>

fun isFinite :: "number \<Rightarrow> bool" where
  "isFinite (Finite _) = True"
| "isFinite NegZero = True"
| "isFinite _ = False"

text \<open>
  The subtraction \<^verbatim>\<open>a - b\<close> of doubles: \<^verbatim>\<open>NaN\<close> when an operand is \<^verbatim>\<open>NaN\<close> or both are the
  same infinity; the negative zero only for \<^verbatim>\<open>-0 - 0\<close>; otherwise the exact difference,
  rounded.
\<close>

fun subtractNumber :: "number \<Rightarrow> number \<Rightarrow> number" where
  "subtractNumber NaN _ = NaN"
| "subtractNumber _ NaN = NaN"
| "subtractNumber Infinity Infinity = NaN"
| "subtractNumber Infinity _ = Infinity"
| "subtractNumber NegInfinity NegInfinity = NaN"
| "subtractNumber NegInfinity _ = NegInfinity"
| "subtractNumber _ Infinity = NegInfinity"
| "subtractNumber _ NegInfinity = Infinity"
| "subtractNumber NegZero NegZero = Finite 0"
| "subtractNumber NegZero (Finite b) = (if b = 0 then NegZero else toNumber (- b))"
| "subtractNumber (Finite a) NegZero = Finite a"
| "subtractNumber (Finite a) (Finite b) = toNumber (a - b)"

text \<open>
  \<^verbatim>\<open>interface Reading { id: string; value: number; date: string; }\<close>

  The \<open>date\<close> of a reading is the ISO-8601 string that \<^verbatim>\<open>new Date().toISOString()\<close> made at
  capture time. The only thing the program ever does with it is
  \<^verbatim>\<open>new Date(r.date).getTime()\<close>, so the field is kept as the epoch-millisecond timestamp
  that string denotes.
\<close>

record reading =
  id' :: string
  "value" :: number
  date :: int

text \<open>The derived row: \<^verbatim>\<open>{ ...r, displayValue: ... }\<close>.\<close>

record displayReading = reading +
  displayValue :: number

datatype viewMode = Table | Chart

section \<open>Strings of the recognition response\<close>

text \<open>
  The response text is untrusted, so it is modelled in full: a JavaScript string is a sequence
  of UTF-16 code units, here natural numbers. \<open>js\<close> writes an ASCII literal as such a string.
\<close>

type_synonym jsstring = "nat list"

definition js :: "string \<Rightarrow> jsstring" where
  "js s = map of_char s"

text \<open>
  ECMAScript \<open>WhiteSpace\<close> and \<open>LineTerminator\<close>: TAB, LF, VT, FF, CR, SP, NBSP, U+1680,
  U+2000 to U+200A, U+2028, U+2029, U+202F, U+205F, U+3000 and U+FEFF.
\<close>

definition isWhiteSpace :: "nat \<Rightarrow> bool" where
  "isWhiteSpace c =
     ((9 \<le> c \<and> c \<le> 13) \<or> c = 32 \<or> c = 160 \<or> c = 5760 \<or> (8192 \<le> c \<and> c \<le> 8202)
      \<or> c = 8232 \<or> c = 8233 \<or> c = 8239 \<or> c = 8287 \<or> c = 12288 \<or> c = 65279)"

text \<open>\<^verbatim>\<open>String.prototype.trim\<close>: white space is removed from both ends.\<close>

definition trim :: "jsstring \<Rightarrow> jsstring" where
  "trim s = rev (dropWhile isWhiteSpace (rev (dropWhile isWhiteSpace s)))"

definition isDigit :: "nat \<Rightarrow> bool" where
  "isDigit c = (48 \<le> c \<and> c \<le> 57)"

text \<open>
  The mathematical integer a run of decimal digits denotes, most significant digit first
  (\<open>mathInt\<close> in the definition of \<^verbatim>\<open>parseInt\<close>).
\<close>

definition digitsValue :: "jsstring \<Rightarrow> int" where
  "digitsValue Z = foldl (\<lambda>acc c. 10 * acc + (int c - 48)) 0 Z"

text \<open>
  \<^verbatim>\<open>parseInt(string, 10)\<close> as ECMAScript defines it: leading white space is skipped, one
  sign character is read, then the longest run of decimal digits; whatever follows is ignored.
  With no digit the result is \<^verbatim>\<open>NaN\<close>. Otherwise it is the number for the signed integer:
  the negative zero for \<^verbatim>\<open>-0\<close>, else the nearest double. (Radix 10 strips no \<^verbatim>\<open>0x\<close> prefix.
  The standard lets an implementation read the digits after the twentieth as zeros; the model
  reads them all, which gives the same number for up to twenty digits and the same infinity.)
\<close>

definition parseInt :: "jsstring \<Rightarrow> number" where
  "parseInt string =
     (let S = dropWhile isWhiteSpace string;
          sign = (case S of [] \<Rightarrow> 1 | c # _ \<Rightarrow> if c = 45 then - 1 else (1::int));
          S' = (case S of [] \<Rightarrow> [] | c # rest \<Rightarrow> if c = 43 \<or> c = 45 then rest else S);
          Z = takeWhile isDigit S';
          mathInt = digitsValue Z
      in if Z = [] then NaN
         else if mathInt = 0 then (if sign = - 1 then NegZero else Finite 0)
         else toNumber (sign * mathInt))"

section \<open>Validation of the recognition response\<close>

text \<open>
  Lines 113 to 116 of \<^verbatim>\<open>handleFileUpload\<close>:
  \<^verbatim>\<open>
  const text = response.text?.trim();
  const numberValue = parseInt(text || "-1", 10);
  if (!text || numberValue === -1 || isNaN(numberValue)) { failure } else { success }
  \<close>
  \<^verbatim>\<open>response.text\<close> may be \<^verbatim>\<open>undefined\<close>, here \<open>None\<close>. A string is falsy when it is
  undefined or empty.
\<close>

datatype failure = RecognitionFailure

definition falsy :: "'a list option \<Rightarrow> bool" where
  "falsy t = (case t of None \<Rightarrow> True | Some s \<Rightarrow> s = [])"

definition orElse :: "jsstring option \<Rightarrow> jsstring \<Rightarrow> jsstring" where
  "orElse t d = (case t of None \<Rightarrow> d | Some s \<Rightarrow> if s = [] then d else s)"

definition recognise :: "jsstring option \<Rightarrow> failure + number" where
  "recognise responseText =
     (let text = map_option trim responseText;
          numberValue = parseInt (orElse text (js ''-1''))
      in if falsy text \<or> numberValue = Finite (- 1) \<or> isNaN numberValue
         then Inl RecognitionFailure
         else Inr numberValue)"

section \<open>The view projector\<close>

text \<open>
  \<^verbatim>\<open>Array.prototype.sort\<close> with a comparator: the language fixes the result for a consistent
  comparator (ascending, and stable since ES2019) and leaves the algorithm open. The model is
  an insertion sort that puts an element before the first one it does not compare greater
  than, taking the elements from the right, so equal elements keep their order.
\<close>

fun insertBy :: "('a \<Rightarrow> 'a \<Rightarrow> int) \<Rightarrow> 'a \<Rightarrow> 'a list \<Rightarrow> 'a list" where
  "insertBy cmp x [] = [x]"
| "insertBy cmp x (y # ys) = (if cmp x y \<le> 0 then x # y # ys else y # insertBy cmp x ys)"

definition Array_sort :: "('a \<Rightarrow> 'a \<Rightarrow> int) \<Rightarrow> 'a list \<Rightarrow> 'a list" where
  "Array_sort cmp xs = foldr (insertBy cmp) xs []"

text \<open>\<^verbatim>\<open>(a, b) => new Date(a.date).getTime() - new Date(b.date).getTime()\<close>\<close>

definition byDate :: "reading \<Rightarrow> reading \<Rightarrow> int" where
  "byDate a b = date a - date b"

text \<open>\<^verbatim>\<open>const sortedReadings = [...readings].sort(byDate)\<close>\<close>

definition sortedReadings :: "reading list \<Rightarrow> reading list" where
  "sortedReadings rs = Array_sort byDate rs"

text \<open>\<^verbatim>\<open>sortedReadings.length > 0 ? sortedReadings[0].value : 0\<close>\<close>

definition initialReading :: "reading list \<Rightarrow> number" where
  "initialReading rs = (case sortedReadings rs of [] \<Rightarrow> Finite 0 | r # _ \<Rightarrow> value r)"

text \<open>
  \<^verbatim>\<open>sortedReadings.map((r) => ({ ...r,
       displayValue: zeroReadings ? r.value - initialReading : r.value }))\<close>
\<close>

definition displayReadings :: "bool \<Rightarrow> reading list \<Rightarrow> displayReading list" where
  "displayReadings zero rs =
     map (\<lambda>r. \<lparr>id' = id' r, value = value r, date = date r,
               displayValue = (if zero then subtractNumber (value r) (initialReading rs) else value r)\<rparr>)
         (sortedReadings rs)"

section \<open>The application state\<close>

text \<open>
  The persisted slot \<^verbatim>\<open>localStorage["odometer_readings"]\<close> holds text. The program only
  writes \<^verbatim>\<open>JSON.stringify(readings)\<close> to it and only reads it through \<^verbatim>\<open>JSON.parse\<close>, so a
  stored text is kept as what it is to \<^verbatim>\<open>JSON.parse\<close>:
  \<^item> \<open>Serialized rs\<close>: the text \<^verbatim>\<open>JSON.stringify\<close> writes for the array \<open>rs\<close>. It writes a finite
    value as its decimal literal, the negative zero as \<^verbatim>\<open>0\<close>, and \<^verbatim>\<open>NaN\<close> and the
    infinities as \<^verbatim>\<open>null\<close>.
  \<^item> \<open>Unparseable t\<close>: a text on which \<^verbatim>\<open>JSON.parse\<close> throws.
  \<^item> \<open>NotAnArray v\<close>: a text that \<^verbatim>\<open>JSON.parse\<close> accepts and that denotes \<^verbatim>\<open>null\<close>, a
    boolean, a number or an object.
  A text that denotes a JSON string, or an array with an element that is not a reading
  written by \<^verbatim>\<open>JSON.stringify\<close>, has no counterpart in this type.
\<close>

datatype notAnArray = JSON_null | JSON_boolean bool | JSON_number int | JSON_object

datatype slot = Serialized "reading list" | Unparseable string | NotAnArray notAnArray

definition JSON_stringify :: "reading list \<Rightarrow> slot" where
  "JSON_stringify rs = Serialized rs"

text \<open>
  What \<^verbatim>\<open>JSON.parse\<close> returns, when it returns: an array of readings; an array of such
  objects in which some \<open>value\<close> is \<^verbatim>\<open>null\<close>; or a value that is not an array.
\<close>

datatype parsed = Readings "reading list" | NullValue | NotIterable

text \<open>A reading as it is read back: the literal of its value becomes the nearest double.\<close>

definition readBack :: "reading \<Rightarrow> reading" where
  "readBack r =
     r\<lparr>value := (case value r of Finite n \<Rightarrow> toNumber n | NegZero \<Rightarrow> Finite 0 | v \<Rightarrow> v)\<rparr>"

text \<open>\<^verbatim>\<open>JSON.parse\<close>; \<open>None\<close> when it throws.\<close>

fun JSON_parse :: "slot \<Rightarrow> parsed option" where
  "JSON_parse (Serialized rs) =
     Some (if list_all (\<lambda>r. isFinite (value r)) rs then Readings (map readBack rs)
           else NullValue)"
| "JSON_parse (Unparseable _) = None"
| "JSON_parse (NotAnArray _) = Some NotIterable"

text \<open>Truthiness of the stored text: only the empty string is falsy.\<close>

fun truthy :: "slot \<Rightarrow> bool" where
  "truthy (Serialized _) = True"
| "truthy (Unparseable t) = (t \<noteq> [])"
| "truthy (NotAnArray _) = True"

text \<open>The \<^verbatim>\<open>File\<close> the user picked; \<^verbatim>\<open>file.type\<close> is its MIME type.\<close>

record imageFile =
  fileName :: string
  fileType :: string

text \<open>
  The React state of \<^verbatim>\<open>App\<close>, the file input element behind \<^verbatim>\<open>fileInputRef\<close> (the file it
  holds; assigning \<^verbatim>\<open>""\<close> to its value empties it) and the storage slot. Six more fields
  describe what surrounds the component:
  \<^item> \<open>changed\<close>: \<^verbatim>\<open>setReadings\<close> put a new array into the state since the last commit (every
    call in the source passes a fresh array, so the dependency \<^verbatim>\<open>[readings]\<close> of the save
    effect differs);
  \<^item> \<open>crashed\<close>: a render has thrown. The source has no error boundary, so React has unmounted
    the component: nothing is on the page, and the other fields of the React state no longer
    mean anything;
  \<^item> \<open>picker\<close>: the file dialog that a click on "Add a Reading" opens is open. Nothing in the
    program reads this;
  \<^item> \<open>reads\<close>: the number of \<^verbatim>\<open>FileReader\<close>s whose \<^verbatim>\<open>load\<close> event is pending;
  \<^item> \<open>calls\<close>: the number of \<^verbatim>\<open>generateContent\<close> requests awaiting their response;
  \<^item> \<open>requests\<close>: the number of requests ever issued.
\<close>

record app =
  readings :: "reading list"
  loading :: bool
  view :: viewMode
  zeroReadings :: bool
  showClearConfirm :: bool
  errorMsg :: "string option"
  fileInput :: "imageFile option"
  storage :: "slot option"
  changed :: bool
  crashed :: bool
  picker :: bool
  reads :: nat
  calls :: nat
  requests :: nat

definition msgConfiguration :: string where
  "msgConfiguration =
     ''Configuration Error: API_KEY is missing. Please check your environment variables.''"

definition msgUnreadable :: string where
  "msgUnreadable = ''Could not read odometer. Please try a clearer photo.''"

definition msgProcessing :: string where
  "msgProcessing = ''Error processing image with AI.''"

definition msgReadingFile :: string where
  "msgReadingFile = ''Error reading file.''"

definition setReadings :: "reading list \<Rightarrow> app \<Rightarrow> app" where
  "setReadings v s = s\<lparr>readings := v, changed := True\<rparr>"

text \<open>
  \<^verbatim>\<open>useEffect(() => { localStorage.setItem(KEY, JSON.stringify(readings)); }, [readings])\<close>,
  run by the commit that follows an event when \<open>readings\<close> is a new array.
\<close>

definition saveEffect :: "app \<Rightarrow> app" where
  "saveEffect s = s\<lparr>storage := Some (JSON_stringify (readings s))\<rparr>"

definition commit :: "app \<Rightarrow> app" where
  "commit s = (if changed s then (saveEffect s)\<lparr>changed := False\<rparr> else s)"

section \<open>Start of the process\<close>

definition initial :: "slot option \<Rightarrow> app" where
  "initial stored =
     \<lparr>readings = [], loading = False, view = Table, zeroReadings = False,
      showClearConfirm = False, errorMsg = None, fileInput = None, storage = stored,
      changed = False, crashed = False, picker = False, reads = 0, calls = 0, requests = 0\<rparr>"

text \<open>
  The load effect (lines 41 to 50): \<^verbatim>\<open>getItem\<close> gives \<^verbatim>\<open>null\<close> for a missing key; the parse
  is skipped for a falsy text; a throwing \<^verbatim>\<open>JSON.parse\<close> is caught and only logged. The
  result is the value the effect passes to \<^verbatim>\<open>setReadings\<close>, when it gets that far; nothing
  checks what kind of value that is.
\<close>

definition loadEffect :: "app \<Rightarrow> parsed option" where
  "loadEffect s =
     (case storage s of
        None \<Rightarrow> None
      | Some stored \<Rightarrow> if truthy stored then JSON_parse stored else None)"

text \<open>
  The render that follows \<^verbatim>\<open>setReadings(JSON.parse(stored))\<close>, with the table shown and
  \<open>zeroReadings\<close> false as they are at the start. With an array of readings it succeeds, and the
  commit runs the save effect. With a value that is not iterable, \<^verbatim>\<open>[...readings]\<close> (line 57)
  throws a \<^verbatim>\<open>TypeError\<close>; with a \<^verbatim>\<open>null\<close> value in a row,
  \<^verbatim>\<open>reading.displayValue.toLocaleString()\<close> (line 334) does.
\<close>

fun rerender :: "parsed \<Rightarrow> app \<Rightarrow> app" where
  "rerender (Readings v) s = commit (setReadings v s)"
| "rerender NullValue s = s\<lparr>crashed := True\<rparr>"
| "rerender NotIterable s = s\<lparr>crashed := True\<rparr>"

text \<open>
  Mounting: the first render has the \<^verbatim>\<open>useState\<close> defaults; then both effects run in the
  order they are declared. The save effect of this first commit closes over the first
  render's \<open>readings\<close>, the empty array, whatever the load effect has just queued. When the
  load effect has set the state, the component renders again.
\<close>

definition mount :: "slot option \<Rightarrow> app" where
  "mount stored =
     (let s0 = initial stored;
          queued = loadEffect s0;
          s1 = s0\<lparr>storage := Some (JSON_stringify (readings s0))\<rparr>
      in case queued of None \<Rightarrow> s1 | Some v \<Rightarrow> rerender v s1)"

section \<open>The ingestion pipeline\<close>

text \<open>
  \<^verbatim>\<open>handleFileUpload\<close> up to the point where it returns to the event loop (lines 69 to 92 and
  134 to 138). \<open>apiKey\<close> is \<^verbatim>\<open>process.env.API_KEY\<close>, a constant of the build; \<open>file\<close> is
  \<^verbatim>\<open>e.target.files?.[0]\<close>; \<open>readThrows\<close> says that \<^verbatim>\<open>new FileReader()\<close> or
  \<^verbatim>\<open>readAsDataURL\<close> throws, which the outer \<^verbatim>\<open>catch\<close> handles. Otherwise a reader is left
  pending, with \<^verbatim>\<open>onload\<close> as its only handler. The handler does not look at \<open>loading\<close>.
\<close>

definition handleFileUpload :: "string option \<Rightarrow> imageFile option \<Rightarrow> bool \<Rightarrow> app \<Rightarrow> app" where
  "handleFileUpload apiKey file readThrows s =
     (case file of
        None \<Rightarrow> s
      | Some f \<Rightarrow>
          let s1 = s\<lparr>loading := True, errorMsg := None\<rparr>
          in if falsy apiKey
             then s1\<lparr>errorMsg := Some msgConfiguration, loading := False, fileInput := None\<rparr>
             else if readThrows
             then s1\<lparr>errorMsg := Some msgReadingFile, loading := False\<rparr>
             else s1\<lparr>reads := reads s1 + 1\<rparr>)"

text \<open>
  \<^verbatim>\<open>reader.onload\<close> up to its \<^verbatim>\<open>await\<close> (lines 88 to 111): the image is sent to
  \<^verbatim>\<open>ai.models.generateContent\<close>. No React state changes here.
\<close>

definition onload :: "app \<Rightarrow> app" where
  "onload s = s\<lparr>calls := calls s + 1, requests := requests s + 1\<rparr>"

text \<open>
  The rest of \<^verbatim>\<open>reader.onload\<close> when the request resolves (lines 113 to 125, then the
  \<^verbatim>\<open>finally\<close> block). \<open>newId\<close> is what \<^verbatim>\<open>generateId()\<close> returns and \<open>now\<close> the clock, both
  given by the environment. \<^verbatim>\<open>setReadings((prev) => [...prev, newReading])\<close> appends to the
  current state.
\<close>

definition onResolve :: "jsstring option \<Rightarrow> string \<Rightarrow> int \<Rightarrow> app \<Rightarrow> app" where
  "onResolve responseText newId now s =
     (let s1 = (case recognise responseText of
                  Inl _ \<Rightarrow> s\<lparr>errorMsg := Some msgUnreadable\<rparr>
                | Inr numberValue \<Rightarrow>
                    setReadings (readings s @ [\<lparr>id' = newId, value = numberValue, date = now\<rparr>]) s)
      in s1\<lparr>loading := False, fileInput := None\<rparr>)"

text \<open>The inner \<^verbatim>\<open>catch\<close> (lines 126 to 128) and the \<^verbatim>\<open>finally\<close> block, when the request rejects.\<close>

definition onReject :: "app \<Rightarrow> app" where
  "onReject s = s\<lparr>errorMsg := Some msgProcessing, loading := False, fileInput := None\<rparr>"

text \<open>\<^verbatim>\<open>clearAllReadings\<close> (lines 141 to 145), in the order of its three statements.\<close>

definition clearAllReadings :: "app \<Rightarrow> app" where
  "clearAllReadings s =
     (let s1 = setReadings [] s;
          s2 = s1\<lparr>showClearConfirm := False\<rparr>
      in s2\<lparr>storage := None\<rparr>)"

section \<open>Events\<close>

text \<open>
  What can happen to the mounted component, one event at a time (the program is
  single-threaded):
  \<^item> \<open>AddClick\<close>: a click on "Add a Reading". The button is rendered with
    \<^verbatim>\<open>disabled={loading}\<close>, and a disabled button delivers no click; otherwise its handler
    opens the file dialog.
  \<^item> \<open>Change file readThrows\<close>: a \<^verbatim>\<open>change\<close> event of the file input, which then holds
    \<open>file\<close>; \<^verbatim>\<open>onChange={handleFileUpload}\<close> runs, whatever the state. A file dialog that was
    open is closed.
  \<^item> \<open>ReaderLoad\<close>, \<open>ReaderError\<close>: a pending \<^verbatim>\<open>FileReader\<close> finishes. Its \<^verbatim>\<open>load\<close> event is
    only fired on success; for the \<^verbatim>\<open>error\<close> event the source registers no handler.
  \<^item> \<open>Resolve text newId now\<close>, \<open>Reject\<close>: a pending request finishes.
  \<^item> \<open>ClearClick\<close>, \<open>ClearCancel\<close>, \<open>ClearConfirm\<close>: "Clear all readings" and the two buttons
    of the dialog it opens, which exist only while \<open>showClearConfirm\<close> holds.
  \<^item> \<open>ToggleZero\<close>, \<open>SetView\<close>: the checkbox and the two tabs.
  After each event React commits, which runs the save effect when \<open>readings\<close> changed. A
  component that has crashed is gone: no event reaches it.
\<close>

datatype event =
    AddClick
  | Change "imageFile option" bool
  | ReaderLoad
  | ReaderError
  | Resolve "jsstring option" string int
  | Reject
  | ClearClick
  | ClearCancel
  | ClearConfirm
  | ToggleZero
  | SetView viewMode

fun handle :: "string option \<Rightarrow> event \<Rightarrow> app \<Rightarrow> app" where
  "handle apiKey AddClick s = (if loading s then s else s\<lparr>picker := True\<rparr>)"
| "handle apiKey (Change file readThrows) s =
     handleFileUpload apiKey file readThrows (s\<lparr>picker := False, fileInput := file\<rparr>)"
| "handle apiKey ReaderLoad s = (if 0 < reads s then onload (s\<lparr>reads := reads s - 1\<rparr>) else s)"
| "handle apiKey ReaderError s = (if 0 < reads s then s\<lparr>reads := reads s - 1\<rparr> else s)"
| "handle apiKey (Resolve text newId now) s =
     (if 0 < calls s then onResolve text newId now (s\<lparr>calls := calls s - 1\<rparr>) else s)"
| "handle apiKey Reject s = (if 0 < calls s then onReject (s\<lparr>calls := calls s - 1\<rparr>) else s)"
| "handle apiKey ClearClick s = s\<lparr>showClearConfirm := True\<rparr>"
| "handle apiKey ClearCancel s = s\<lparr>showClearConfirm := False\<rparr>"
| "handle apiKey ClearConfirm s = (if showClearConfirm s then clearAllReadings s else s)"
| "handle apiKey ToggleZero s = s\<lparr>zeroReadings := (\<not> zeroReadings s)\<rparr>"
| "handle apiKey (SetView v) s = s\<lparr>view := v\<rparr>"

definition step :: "string option \<Rightarrow> event \<Rightarrow> app \<Rightarrow> app" where
  "step apiKey e s = (if crashed s then s else commit (handle apiKey e s))"

fun run :: "string option \<Rightarrow> event list \<Rightarrow> app \<Rightarrow> app" where
  "run apiKey [] s = s"
| "run apiKey (e # es) s = run apiKey es (step apiKey e s)"

text \<open>
  One ingestion attempt, from the click to its last event, for each way it can go once a file
  is picked and the credential check is passed or failed.
\<close>

datatype outcome =
    ReadThrows
  | ReadFails
  | CallRejects
  | CallResolves "jsstring option" string int

fun attempt :: "imageFile \<Rightarrow> outcome \<Rightarrow> event list" where
  "attempt f ReadThrows = [AddClick, Change (Some f) True]"
| "attempt f ReadFails = [AddClick, Change (Some f) False, ReaderError]"
| "attempt f CallRejects = [AddClick, Change (Some f) False, ReaderLoad, Reject]"
| "attempt f (CallResolves text newId now) =
     [AddClick, Change (Some f) False, ReaderLoad, Resolve text newId now]"

section \<open>Predicates used in the statements\<close>

text \<open>The data model's range for a reading: a non-negative integer of at most six digits.\<close>

fun upToSixDigits :: "number \<Rightarrow> bool" where
  "upToSixDigits (Finite n) = (0 \<le> n \<and> n \<le> 999999)"
| "upToSixDigits NegZero = True"
| "upToSixDigits _ = False"





section \<open>Facts about numbers\<close>

lemma toNumber_small: "\<bar>x\<bar> < 2 ^ 53 \<Longrightarrow> toNumber x = Finite x"
proof -
  assume "\<bar>x\<bar> < 2 ^ 53"
  then have "nat \<bar>x\<bar> < 2 ^ 53" by (simp add: nat_less_iff)
  then show ?thesis by (simp add: toNumber_def)
qed

lemma toNumber_not_NaN: "\<not> isNaN (toNumber x)"
  by (simp add: toNumber_def Let_def)

lemma bitLength_bounds: "0 < n \<Longrightarrow> 2 ^ (bitLength n - 1) \<le> n \<and> n < 2 ^ bitLength n"
proof (induction n rule: bitLength.induct)
  case (1 n)
  show ?case
  proof (cases "n div 2 = 0")
    case True
    with "1.prems" have "n = 1" by (simp add: div_eq_0_iff)
    then show ?thesis by (simp add: bitLength.simps)
  next
    case False
    then have pos: "0 < n div 2" by simp
    from "1.IH" [OF _ pos] "1.prems"
    have ih: "2 ^ (bitLength (n div 2) - 1) \<le> n div 2" "n div 2 < 2 ^ bitLength (n div 2)"
      by simp_all
    have bl: "bitLength n = Suc (bitLength (n div 2))"
      using "1.prems" by (subst bitLength.simps) simp
    have "0 < bitLength (n div 2)"
      using pos by (subst bitLength.simps) simp
    then obtain k where k: "bitLength (n div 2) = Suc k"
      by (cases "bitLength (n div 2)") auto
    from ih(1) have "2 * 2 ^ k \<le> 2 * (n div 2)" by (simp add: k)
    also have "\<dots> \<le> n" by simp
    finally have lo: "2 ^ (bitLength n - 1) \<le> n" by (simp add: bl k)
    from ih(2) have "n div 2 + 1 \<le> 2 ^ bitLength (n div 2)" by simp
    then have "2 * (n div 2) + 2 \<le> 2 * 2 ^ bitLength (n div 2)" by simp
    moreover have "n \<le> 2 * (n div 2) + 1" by presburger
    ultimately have hi: "n < 2 ^ bitLength n" by (simp add: bl)
    from lo hi show ?thesis by simp
  qed
qed

text \<open>An integer of at least \<open>2 ^ 1024\<close> has no double: it becomes \<^verbatim>\<open>Infinity\<close>.\<close>

lemma toNumber_overflow:
  assumes "2 ^ 1024 \<le> x"
  shows "toNumber x = Infinity"
proof -
  define m where "m = nat \<bar>x\<bar>"
  have x: "0 \<le> x" using assms by (smt (verit) zero_le_power)
  have m: "(2::nat) ^ 1024 \<le> m"
  proof -
    have "int ((2::nat) ^ 1024) \<le> x" using assms by simp
    then show ?thesis unfolding m_def using x by linarith
  qed
  then have mpos: "0 < m" by (meson less_le_trans zero_less_numeral zero_less_power)
  define e where "e = bitLength m - 53"
  from bitLength_bounds [OF mpos] have bb: "2 ^ (bitLength m - 1) \<le> m" "m < 2 ^ bitLength m"
    by simp_all
  have lt: "(2::nat) ^ 1024 < 2 ^ bitLength m" using m bb(2) by linarith
  have bl: "1024 < bitLength m" by (rule power_less_imp_less_exp [OF _ lt]) simp
  then have e53: "bitLength m - 1 = e + 52" by (simp add: e_def)
  have big: "\<not> m < 2 ^ 53"
  proof -
    have "(2::nat) ^ 53 \<le> 2 ^ 1024" by (rule power_increasing) simp_all
    with m show ?thesis by linarith
  qed
  have "(2::nat) ^ (e + 52) \<le> m" using bb(1) unfolding e53 .
  then have "(2::nat) ^ 52 * 2 ^ e \<le> m" by (simp only: power_add mult.commute)
  then have q: "2 ^ 52 \<le> m div 2 ^ e"
    by (simp add: less_eq_div_iff_mult_less_eq)
  define q' where "q' =
    (if 2 ^ e < 2 * (m mod 2 ^ e) \<or> (2 * (m mod 2 ^ e) = 2 ^ e \<and> odd (m div 2 ^ e))
     then m div 2 ^ e + 1 else m div 2 ^ e)"
  have "2 ^ 52 \<le> q'" using q by (simp add: q'_def)
  then have "(2::nat) ^ 52 * 2 ^ e \<le> q' * 2 ^ e" by simp
  moreover have "(2::nat) ^ 1024 \<le> 2 ^ 52 * 2 ^ e"
  proof -
    have "1024 \<le> 52 + e" using bl by (simp add: e_def)
    then have "(2::nat) ^ 1024 \<le> 2 ^ (52 + e)" by (rule power_increasing) simp
    then show ?thesis by (simp add: power_add)
  qed
  ultimately have "(2::nat) ^ 1024 \<le> q' * 2 ^ e" by linarith
  then have v: "(2::int) ^ 1024 \<le> int (q' * 2 ^ e)"
    by (metis of_nat_le_iff of_nat_numeral of_nat_power)
  show ?thesis
    using big v x
    unfolding toNumber_def m_def [symmetric] Let_def e_def [symmetric] q'_def [symmetric]
    by simp
qed

lemma subtractNumber_self:
  "subtractNumber v v = (if isFinite v then Finite 0 else NaN)"
  by (cases v) (simp_all add: toNumber_def)

section \<open>Facts about the response validation\<close>

lemmas validation_defs =
  recognise_def js_def trim_def isWhiteSpace_def parseInt_def orElse_def falsy_def
  isDigit_def digitsValue_def toNumber_def

lemmas app_defs =
  mount_def initial_def loadEffect_def commit_def saveEffect_def setReadings_def step_def
  handleFileUpload_def onload_def onResolve_def onReject_def clearAllReadings_def
  JSON_stringify_def readBack_def

lemma parseInt_Nil: "parseInt [] = NaN"
  by (simp add: parseInt_def)

lemma recognise_Some:
  "recognise (Some t) =
     (if parseInt (trim t) = Finite (- 1) \<or> isNaN (parseInt (trim t))
      then Inl RecognitionFailure else Inr (parseInt (trim t)))"
  by (auto simp: recognise_def falsy_def orElse_def parseInt_Nil Let_def)

lemma recognise_None: "recognise None = Inl RecognitionFailure"
  by (simp add: recognise_def falsy_def)

lemma recognise_not_sentinel: "recognise resp \<noteq> Inr (Finite (- 1)) \<and> recognise resp \<noteq> Inr NaN"
proof (cases resp)
  case None
  then show ?thesis by (simp add: recognise_None)
next
  case (Some t)
  then show ?thesis by (auto simp: recognise_Some)
qed

text \<open>
  The adapter fails exactly when the trimmed text is empty, or \<^verbatim>\<open>parseInt\<close> gives \<open>-1\<close>, or
  gives \<^verbatim>\<open>NaN\<close>; otherwise it succeeds with the number \<^verbatim>\<open>parseInt\<close> gave.
\<close>

lemma recognise_classification:
  "(recognise (Some t) = Inl RecognitionFailure) =
     (trim t = [] \<or> parseInt (trim t) = Finite (- 1) \<or> isNaN (parseInt (trim t)))"
  by (auto simp: recognise_Some parseInt_Nil)

lemma digitsValue_snoc: "digitsValue (ds @ [c]) = 10 * digitsValue ds + (int c - 48)"
  by (simp add: digitsValue_def)

lemma digitsValue_bounds:
  "list_all isDigit ds \<Longrightarrow> 0 \<le> digitsValue ds \<and> digitsValue ds < 10 ^ length ds"
proof (induction ds rule: rev_induct)
  case Nil
  then show ?case by (simp add: digitsValue_def)
next
  case (snoc c ds)
  then have d: "48 \<le> c" "c \<le> 57"
    and ih: "0 \<le> digitsValue ds" "digitsValue ds < 10 ^ length ds"
    by (simp_all add: isDigit_def)
  from ih(2) have "digitsValue ds + 1 \<le> 10 ^ length ds" by simp
  then have "10 * (digitsValue ds + 1) \<le> 10 * 10 ^ length ds"
    by (rule mult_left_mono) simp
  with d ih(1) show ?case by (simp add: digitsValue_snoc)
qed

lemma digitsValue_nines: "digitsValue (replicate n 57) = 10 ^ n - 1"
proof (induction n)
  case 0
  then show ?case by (simp add: digitsValue_def)
next
  case (Suc n)
  have "replicate (Suc n) (57::nat) = replicate n 57 @ [57]"
    by (simp add: replicate_append_same)
  then show ?case by (simp add: digitsValue_snoc Suc)
qed

lemma digit_not_space: "isDigit c \<Longrightarrow> \<not> isWhiteSpace c"
  by (auto simp: isDigit_def isWhiteSpace_def)

lemma parseInt_digits_prefix:
  assumes "ds \<noteq> []" "list_all isDigit ds" "rest = [] \<or> \<not> isDigit (hd rest)"
  shows "parseInt (ds @ rest) = toNumber (digitsValue ds)"
proof -
  obtain d ds' where ds: "ds = d # ds'" using assms(1) by (cases ds) auto
  with assms(2) have d: "isDigit d" by simp
  then have ns: "\<not> isWhiteSpace d" by (rule digit_not_space)
  from d have sg: "d \<noteq> 43" "d \<noteq> 45" by (auto simp: isDigit_def)
  have tw: "takeWhile isDigit (ds @ rest) = ds"
    using assms(2,3)
    by (cases rest) (auto simp: takeWhile_append2 list_all_iff takeWhile_eq_all_conv)
  have z: "toNumber 0 = Finite 0" by (simp add: toNumber_def)
  show ?thesis
    using tw ns sg assms(1) z unfolding parseInt_def ds by (simp add: Let_def)
qed

lemma parseInt_leading_digits:
  assumes "takeWhile isDigit u \<noteq> []"
  shows "parseInt u = toNumber (digitsValue (takeWhile isDigit u))"
proof -
  let ?ds = "takeWhile isDigit u" and ?rest = "dropWhile isDigit u"
  have all: "list_all isDigit ?ds"
    by (simp add: list_all_iff) (meson set_takeWhileD)
  have rest: "?rest = [] \<or> \<not> isDigit (hd ?rest)"
    using hd_dropWhile [of isDigit u] by blast
  have "parseInt (?ds @ ?rest) = toNumber (digitsValue ?ds)"
    using assms all rest by (rule parseInt_digits_prefix)
  then show ?thesis by simp
qed

lemma trim_digits:
  assumes "ds \<noteq> []" "list_all isDigit ds"
  shows "trim ds = ds"
proof -
  have "\<not> isWhiteSpace (hd ds)"
    using assms by (cases ds) (auto dest: digit_not_space)
  then have a: "dropWhile isWhiteSpace ds = ds"
    using assms(1) by (cases ds) auto
  have "isDigit (last ds)"
    using assms by (simp add: list_all_iff)
  then have "\<not> isWhiteSpace (hd (rev ds))"
    using assms(1) by (simp add: hd_rev digit_not_space)
  then have b: "dropWhile isWhiteSpace (rev ds) = rev ds"
    using assms(1) by (cases "rev ds") auto
  show ?thesis by (simp add: trim_def a b)
qed

text \<open>A response of 310 nines is accepted, with the value \<^verbatim>\<open>Infinity\<close>.\<close>

lemma recognise_nines: "recognise (Some (replicate 310 57)) = Inr Infinity"
proof -
  let ?t = "replicate 310 (57::nat)"
  have all: "list_all isDigit ?t" by (simp add: list_all_iff isDigit_def)
  have ne: "?t \<noteq> []" by simp
  have tr: "trim ?t = ?t" using ne all by (rule trim_digits)
  have tw: "takeWhile isDigit ?t = ?t" using all by (simp add: list_all_iff)
  have "(2::int) ^ 1024 \<le> 10 ^ 310 - 1" by simp
  then have "toNumber (digitsValue ?t) = Infinity"
    unfolding digitsValue_nines by (rule toNumber_overflow)
  moreover have "parseInt ?t = toNumber (digitsValue ?t)"
    using parseInt_leading_digits [of ?t] ne unfolding tw by simp
  ultimately show ?thesis by (simp add: recognise_Some tr)
qed

text \<open>A response beyond \<open>2 ^ 53\<close> is accepted with the nearest double as its value.\<close>

lemma recognise_rounds:
  "recognise (Some (js ''9007199254740993'')) = Inr (Finite 9007199254740992)"
  by (simp add: validation_defs bitLength.simps Let_def)

section \<open>The recognition adapter\<close>

text \<open>
  C1. The claim: a response that is not a valid integer is classified as a failure, and in
  particular \<^verbatim>\<open>"12a456"\<close> is. The handler tests \<^verbatim>\<open>isNaN(numberValue)\<close> for this, but
  \<^verbatim>\<open>parseInt\<close> reads the leading digits \<^verbatim>\<open>12\<close> and ignores the rest, so the test does not
  see that the text is not a number: the adapter succeeds with 12. On the other three
  responses the claim names, the code does what the claim says.
\<close>

theorem C1_nonnumeric_accepted:
  "recognise (Some (js ''12a456'')) = Inr (Finite 12)
   \<and> recognise (Some (js ''123456'')) = Inr (Finite 123456)
   \<and> recognise (Some (js ''-1'')) = Inl RecognitionFailure
   \<and> recognise (Some (js '''')) = Inl RecognitionFailure"
  by (simp add: validation_defs)

text \<open>
  C3, as the claim states it: every appended reading has a value between 0 and 999999. The
  code checks no range: the response \<^verbatim>\<open>"1234567"\<close> is appended as 1234567, and the response
  \<^verbatim>\<open>"-7"\<close> as \<open>-7\<close>.
\<close>

theorem C3_counterexample:
  "\<not> list_all upToSixDigits (map value (readings (run (Some ''key'')
      (attempt \<lparr>fileName = ''odo.jpg'', fileType = ''image/jpeg''\<rparr>
         (CallResolves (Some (js ''1234567'')) ''a1'' 1000))
      (mount None))))
   \<and> \<not> list_all upToSixDigits (map value (readings (run (Some ''key'')
      (attempt \<lparr>fileName = ''odo.jpg'', fileType = ''image/jpeg''\<rparr>
         (CallResolves (Some (js ''-7'')) ''a1'' 1000))
      (mount None))))"
  by (simp add: app_defs validation_defs)

text \<open>
  C3, amended. An event either leaves the collection as it is, or empties it, or is a
  response of the recognition service that appends one reading whose value is the number
  \<^verbatim>\<open>parseInt\<close> returned for the trimmed response. That number is never \<^verbatim>\<open>NaN\<close> and never
  \<open>-1\<close>, and nothing else is checked: it is \<open>-7\<close> for \<^verbatim>\<open>"-7"\<close>, the nearest double
  9007199254740992 for \<^verbatim>\<open>"9007199254740993"\<close>, and \<^verbatim>\<open>Infinity\<close> for a response of 310 nines. When the trimmed response consists of one to six decimal digits, the
  value is the integer they denote and lies between 0 and 999999.
\<close>

theorem C3_appended_value:
  "(readings (step apiKey e s) = readings s
    \<or> readings (step apiKey e s) = []
    \<or> (\<exists>text newId now n. e = Resolve text newId now \<and> recognise text = Inr n
          \<and> n \<noteq> Finite (- 1) \<and> n \<noteq> NaN
          \<and> (\<forall>t. text = Some t \<longrightarrow> n = parseInt (trim t))
          \<and> readings (step apiKey e s) = readings s @ [\<lparr>id' = newId, value = n, date = now\<rparr>]))
   \<and> (list_all isDigit (trim t) \<and> 0 < length (trim t) \<and> length (trim t) \<le> 6 \<longrightarrow>
        recognise (Some t) = Inr (Finite (digitsValue (trim t)))
        \<and> upToSixDigits (Finite (digitsValue (trim t))))
   \<and> recognise (Some (js ''-7'')) = Inr (Finite (- 7))
   \<and> recognise (Some (js ''9007199254740993'')) = Inr (Finite 9007199254740992)
   \<and> recognise (Some (replicate 310 57)) = Inr Infinity"
proof -
  have a: "readings (step apiKey e s) = readings s
    \<or> readings (step apiKey e s) = []
    \<or> (\<exists>text newId now n. e = Resolve text newId now \<and> recognise text = Inr n
          \<and> n \<noteq> Finite (- 1) \<and> n \<noteq> NaN
          \<and> (\<forall>t. text = Some t \<longrightarrow> n = parseInt (trim t))
          \<and> readings (step apiKey e s) = readings s @ [\<lparr>id' = newId, value = n, date = now\<rparr>])"
  proof (cases e)
    case (Resolve resp newId now)
    show ?thesis
    proof (cases "recognise resp")
      case (Inl x)
      then show ?thesis using Resolve by (simp add: app_defs)
    next
      case (Inr n)
      then have n: "n \<noteq> Finite (- 1)" "n \<noteq> NaN"
        using recognise_not_sentinel [of resp] by auto
      have p: "\<forall>t. resp = Some t \<longrightarrow> n = parseInt (trim t)"
        using Inr by (auto simp: recognise_Some split: if_splits)
      from n p show ?thesis using Resolve Inr by (simp add: app_defs)
    qed
  next
    case (Change fo readThrows)
    then show ?thesis by (cases fo) (simp_all add: app_defs Let_def)
  qed (simp_all add: app_defs Let_def)
  have b: "list_all isDigit (trim t) \<and> 0 < length (trim t) \<and> length (trim t) \<le> 6 \<longrightarrow>
        recognise (Some t) = Inr (Finite (digitsValue (trim t)))
        \<and> upToSixDigits (Finite (digitsValue (trim t)))"
  proof
    assume h: "list_all isDigit (trim t) \<and> 0 < length (trim t) \<and> length (trim t) \<le> 6"
    then have ne: "trim t \<noteq> []" and all: "list_all isDigit (trim t)" by auto
    from all have tw: "takeWhile isDigit (trim t) = trim t"
      by (simp add: list_all_iff)
    from all have bd: "0 \<le> digitsValue (trim t)" "digitsValue (trim t) < 10 ^ length (trim t)"
      using digitsValue_bounds by blast+
    have "(10::int) ^ length (trim t) \<le> 10 ^ 6"
      using h by (intro power_increasing) simp_all
    with bd have up: "digitsValue (trim t) \<le> 999999" by simp
    with bd(1) have "toNumber (digitsValue (trim t)) = Finite (digitsValue (trim t))"
      by (intro toNumber_small) simp
    moreover have "parseInt (trim t) = toNumber (digitsValue (trim t))"
      using parseInt_leading_digits [of "trim t"] ne tw by simp
    ultimately show "recognise (Some t) = Inr (Finite (digitsValue (trim t)))
        \<and> upToSixDigits (Finite (digitsValue (trim t)))"
      using bd(1) up by (simp add: recognise_Some)
  qed
  have c: "recognise (Some (js ''-7'')) = Inr (Finite (- 7))"
    by (simp add: validation_defs)
  from a b c recognise_rounds recognise_nines show ?thesis by blast
qed

theorem C3_appended_value_witness:
  "list_all isDigit (trim (js ''045213 '')) \<and> 0 < length (trim (js ''045213 ''))
   \<and> length (trim (js ''045213 '')) \<le> 6
   \<and> recognise (Some (js ''045213 '')) = Inr (Finite (digitsValue (trim (js ''045213 ''))))
   \<and> upToSixDigits (Finite (digitsValue (trim (js ''045213 ''))))
   \<and> digitsValue (trim (js ''045213 '')) = 45213"
proof -
  have h: "list_all isDigit (trim (js ''045213 '')) \<and> 0 < length (trim (js ''045213 ''))
      \<and> length (trim (js ''045213 '')) \<le> 6"
    by (simp add: validation_defs)
  have v: "digitsValue (trim (js ''045213 '')) = 45213"
    by (simp add: validation_defs)
  from h v C3_appended_value [where t = "js ''045213 ''" and apiKey = None and e = AddClick
      and s = "mount None"]
  show ?thesis by iprover
qed

section \<open>The reading store\<close>

text \<open>
  Where loading works as the claim C9 says: with no stored text, with a text that
  \<^verbatim>\<open>JSON.parse\<close> rejects, and with the serialization of readings of finite value, mounting
  completes, with the empty collection in the first two cases and the readings read back in
  the third.
\<close>

lemma mount_loads:
  "readings (mount None) = [] \<and> \<not> crashed (mount None)"
  "readings (mount (Some (Unparseable t))) = [] \<and> \<not> crashed (mount (Some (Unparseable t)))"
  "list_all (\<lambda>r. isFinite (value r)) rs \<Longrightarrow>
     readings (mount (Some (Serialized rs))) = map readBack rs
     \<and> \<not> crashed (mount (Some (Serialized rs)))"
  by (simp_all add: mount_def initial_def loadEffect_def commit_def saveEffect_def
      setReadings_def Let_def)

text \<open>
  C9. The claim: whatever the persisted text, loading yields the deserialized collection or,
  failing that, the empty collection, without a crash. The \<^verbatim>\<open>try\<close> around \<^verbatim>\<open>JSON.parse\<close> is
  there for this, but it only covers a text that does not parse. The text \<^verbatim>\<open>null\<close> parses:
  \<^verbatim>\<open>setReadings(null)\<close> runs, and the render that follows throws at \<^verbatim>\<open>[...readings]\<close>, which
  takes the component down. The program can write such a text itself: a response of 310
  nines is stored with the value \<^verbatim>\<open>Infinity\<close>, which \<^verbatim>\<open>JSON.stringify\<close> writes as \<^verbatim>\<open>null\<close>,
  and the next start crashes on it.
\<close>

theorem C9_load_crashes:
  "crashed (mount (Some (NotAnArray JSON_null)))
   \<and> crashed (mount (storage (run (Some ''key'')
        (attempt \<lparr>fileName = ''odo.jpg'', fileType = ''image/jpeg''\<rparr>
           (CallResolves (Some (replicate 310 57)) ''a1'' 1000))
        (mount None))))"
proof -
  have a: "crashed (mount (Some (NotAnArray JSON_null)))"
    by (simp add: mount_def initial_def loadEffect_def Let_def)
  have "storage (run (Some ''key'')
        (attempt \<lparr>fileName = ''odo.jpg'', fileType = ''image/jpeg''\<rparr>
           (CallResolves (Some (replicate 310 57)) ''a1'' 1000))
        (mount None))
      = Some (Serialized [\<lparr>id' = ''a1'', value = Infinity, date = 1000\<rparr>])"
    by (simp add: mount_def initial_def loadEffect_def commit_def saveEffect_def setReadings_def
        step_def handleFileUpload_def onload_def onResolve_def JSON_stringify_def falsy_def
        recognise_nines Let_def)
  then have b: "crashed (mount (storage (run (Some ''key'')
        (attempt \<lparr>fileName = ''odo.jpg'', fileType = ''image/jpeg''\<rparr>
           (CallResolves (Some (replicate 310 57)) ''a1'' 1000))
        (mount None))))"
    by (simp add: mount_def initial_def loadEffect_def Let_def)
  from a b show ?thesis by (rule conjI)
qed

text \<open>
  Clear-All empties the collection in every state of the mounted component, and in every
  such state the commit that follows it writes the slot again.
\<close>

lemma clear_all_general:
  "\<not> crashed s \<Longrightarrow>
   readings (step apiKey ClearConfirm (step apiKey ClearClick s)) = []
   \<and> storage (step apiKey ClearConfirm (step apiKey ClearClick s)) = Some (Serialized [])"
  by (simp add: app_defs Let_def)

text \<open>
  C2. The claim: after Clear-All the collection is empty and the persisted key no longer
  exists. \<^verbatim>\<open>clearAllReadings\<close> does call \<^verbatim>\<open>removeItem\<close>, but it also sets \<open>readings\<close> to a
  new array, so the save effect runs in the commit that follows and writes the key again.
  After one successful ingestion and Clear-All the collection is empty and the slot holds
  the serialization of the empty array.
\<close>

theorem C2_clear_all_rewrites_slot:
  "readings (run (Some ''key'')
      (attempt \<lparr>fileName = ''odo.jpg'', fileType = ''image/jpeg''\<rparr>
         (CallResolves (Some (js ''123456'')) ''a1'' 1000) @ [ClearClick, ClearConfirm])
      (mount None)) = []
   \<and> storage (run (Some ''key'')
      (attempt \<lparr>fileName = ''odo.jpg'', fileType = ''image/jpeg''\<rparr>
         (CallResolves (Some (js ''123456'')) ''a1'' 1000) @ [ClearClick, ClearConfirm])
      (mount None)) = Some (Serialized [])"
  by (simp add: app_defs validation_defs)

section \<open>The ingestion pipeline: proofs\<close>

text \<open>
  From a state of the mounted component in which nothing is pending, an attempt that stops at
  the credential check or goes as far as the recognition call ends with \<open>loading\<close> false and
  the file input emptied.
\<close>

lemma attempt_resets:
  assumes "\<not> crashed s" "\<not> loading s" "reads s = 0" "calls s = 0"
    and "falsy apiKey \<or> oc = CallRejects \<or> oc = CallResolves t i d"
  shows "\<not> loading (run apiKey (attempt f oc) s)
    \<and> fileInput (run apiKey (attempt f oc) s) = None"
  using assms
  by (cases oc) (auto simp: app_defs Let_def split: sum.splits)

text \<open>
  C4. The claim: after every attempt, whatever its outcome, \<open>loading\<close> is false and the file
  input is emptied. It fails for a file that cannot be read. When \<^verbatim>\<open>readAsDataURL\<close> throws,
  the outer \<^verbatim>\<open>catch\<close> sets \<open>loading\<close> to false but leaves the file in the input, unlike the
  credential branch and the \<^verbatim>\<open>finally\<close> block. When the reader fails later, with its
  \<^verbatim>\<open>error\<close> event, no handler runs: \<open>loading\<close> stays true and the file stays in the input.
\<close>

theorem C4_file_read_failure:
  "fileInput (run (Some ''key'')
      (attempt \<lparr>fileName = ''odo.jpg'', fileType = ''image/jpeg''\<rparr> ReadThrows) (mount None))
     = Some \<lparr>fileName = ''odo.jpg'', fileType = ''image/jpeg''\<rparr>
   \<and> loading (run (Some ''key'')
      (attempt \<lparr>fileName = ''odo.jpg'', fileType = ''image/jpeg''\<rparr> ReadFails) (mount None))
   \<and> fileInput (run (Some ''key'')
      (attempt \<lparr>fileName = ''odo.jpg'', fileType = ''image/jpeg''\<rparr> ReadFails) (mount None))
     = Some \<lparr>fileName = ''odo.jpg'', fileType = ''image/jpeg''\<rparr>"
  by (simp add: app_defs validation_defs)

section \<open>The view projector: proofs\<close>

lemma insertBy_byDate: "insertBy byDate x ys = insort_key date x ys"
  by (induction ys) (simp_all add: byDate_def)

lemma sortedReadings_sort_key: "sortedReadings rs = sort_key date rs"
  by (induction rs) (simp_all add: sortedReadings_def Array_sort_def insertBy_byDate)

lemma truncate_row:
  "reading.truncate \<lparr>id' = i, value = v, date = d, displayValue = w\<rparr> = \<lparr>id' = i, value = v, date = d\<rparr>"
  by (simp add: reading.truncate_def)

lemma truncate_displayReadings:
  "map reading.truncate (displayReadings zero rs) = sortedReadings rs"
proof -
  have "\<lparr>id' = id' x, value = value x, date = date x\<rparr> = x" for x :: reading
    by (cases x) simp
  then have "map (\<lambda>x::reading. \<lparr>id' = id' x, value = value x, date = date x\<rparr>) ys = ys" for ys
    by (intro map_idI)
  then show ?thesis
    by (simp add: displayReadings_def truncate_row comp_def)
qed

lemma date_displayReadings:
  "map date (displayReadings zero rs) = map date (sortedReadings rs)"
  by (simp add: displayReadings_def comp_def)

text \<open>
  C7. In absolute mode the rows of the projection, without their \<open>displayValue\<close>, are the
  collection sorted stably by date: they are in ascending order of date, they are the readings
  of the collection, each as often as it occurs there, and readings of equal date keep the order
  they have in the collection. Each row displays its own value.
\<close>

theorem C7_absolute_projection:
  "map reading.truncate (displayReadings False rs) = sort_key date rs
   \<and> sorted (map date (displayReadings False rs))
   \<and> mset (map reading.truncate (displayReadings False rs)) = mset rs
   \<and> (\<forall>k. filter (\<lambda>r. date r = k) (map reading.truncate (displayReadings False rs))
           = filter (\<lambda>r. date r = k) rs)
   \<and> list_all (\<lambda>d. displayValue d = value d) (displayReadings False rs)"
proof -
  have "list_all (\<lambda>d. displayValue d = value d) (displayReadings False rs)"
    by (simp add: displayReadings_def list_all_iff)
  then show ?thesis
    by (simp add: truncate_displayReadings date_displayReadings sortedReadings_sort_key
        sort_key_stable)
qed

theorem C7_absolute_projection_witness:
  "map reading.truncate (displayReadings False
        [\<lparr>id' = ''b'', value = Finite 45300, date = 2000\<rparr>,
         \<lparr>id' = ''a'', value = Finite 45213, date = 1000\<rparr>,
         \<lparr>id' = ''c'', value = Finite 45301, date = 2000\<rparr>])
     = [\<lparr>id' = ''a'', value = Finite 45213, date = 1000\<rparr>,
        \<lparr>id' = ''b'', value = Finite 45300, date = 2000\<rparr>,
        \<lparr>id' = ''c'', value = Finite 45301, date = 2000\<rparr>]"
  using C7_absolute_projection [of "[\<lparr>id' = ''b'', value = Finite 45300, date = 2000\<rparr>,
         \<lparr>id' = ''a'', value = Finite 45213, date = 1000\<rparr>,
         \<lparr>id' = ''c'', value = Finite 45301, date = 2000\<rparr>]"]
  by simp

lemma initialReading_earliest:
  assumes "rs \<noteq> []"
  shows "initialReading rs = value (hd (filter (\<lambda>r. date r = Min (date ` set rs)) rs))"
proof -
  let ?ys = "sort_key date rs"
  have "?ys \<noteq> []" using assms by (metis length_sort length_0_conv)
  then obtain y ys' where ys: "?ys = y # ys'" by (cases ?ys) auto
  have "sorted (map date ?ys)" by simp
  then have le: "\<forall>r \<in> set ?ys. date y \<le> date r" unfolding ys by auto
  have yin: "y \<in> set rs" using ys by (metis list.set_intros(1) set_sort)
  have "Min (date ` set rs) = date y"
  proof (rule Min_eqI)
    show "finite (date ` set rs)" by simp
    show "date y \<in> date ` set rs" using yin by blast
    fix d assume "d \<in> date ` set rs"
    then show "date y \<le> d" using le by auto
  qed
  moreover have "filter (\<lambda>r. date r = date y) rs = filter (\<lambda>r. date r = date y) ?ys"
    by (simp add: sort_key_stable)
  ultimately have "hd (filter (\<lambda>r. date r = Min (date ` set rs)) rs) = y"
    by (simp add: ys)
  then show ?thesis by (simp add: initialReading_def sortedReadings_sort_key ys)
qed

lemma first_zero_based:
  assumes "rs \<noteq> []"
  shows "displayReadings True rs \<noteq> []
    \<and> displayValue (displayReadings True rs ! 0)
        = subtractNumber (initialReading rs) (initialReading rs)"
proof -
  from assms have "sortedReadings rs \<noteq> []"
    by (metis sortedReadings_sort_key length_sort length_0_conv)
  then obtain y ys where "sortedReadings rs = y # ys" by (cases "sortedReadings rs") auto
  then show ?thesis by (simp add: displayReadings_def initialReading_def)
qed

text \<open>
  C6, as the claim states it: for every non-empty collection the first row of the zero-based
  projection displays 0. After a response of 310 nines the collection holds one reading of
  value \<^verbatim>\<open>Infinity\<close>, and the row displays \<^verbatim>\<open>Infinity - Infinity\<close>, which is \<^verbatim>\<open>NaN\<close>.
\<close>

theorem C6_counterexample:
  "map displayValue (displayReadings True (readings (run (Some ''key'')
      (attempt \<lparr>fileName = ''odo.jpg'', fileType = ''image/jpeg''\<rparr>
         (CallResolves (Some (replicate 310 57)) ''a1'' 1000))
      (mount None)))) = [NaN]"
proof -
  have "readings (run (Some ''key'')
      (attempt \<lparr>fileName = ''odo.jpg'', fileType = ''image/jpeg''\<rparr>
         (CallResolves (Some (replicate 310 57)) ''a1'' 1000))
      (mount None)) = [\<lparr>id' = ''a1'', value = Infinity, date = 1000\<rparr>]"
    by (simp add: mount_def initial_def loadEffect_def commit_def saveEffect_def setReadings_def
        step_def handleFileUpload_def onload_def onResolve_def JSON_stringify_def falsy_def
        recognise_nines Let_def)
  then show ?thesis
    by (simp add: displayReadings_def initialReading_def sortedReadings_def Array_sort_def)
qed

text \<open>
  C6, amended. For a non-empty collection whose earliest reading has a finite value, the
  first row of the zero-based projection displays 0; when that value is an infinity the row
  displays \<^verbatim>\<open>NaN\<close>. In zero-based mode each row displays its value minus \<open>initialReading\<close>,
  as doubles subtract; in absolute mode it displays its value. \<open>initialReading\<close> is 0 for the
  empty collection and otherwise the value of the earliest reading by date (of the first such
  reading of the collection, when several share that date).
\<close>

theorem C6_zero_based:
  "(rs \<noteq> [] \<and> isFinite (initialReading rs) \<longrightarrow>
      displayReadings True rs \<noteq> [] \<and> displayValue (displayReadings True rs ! 0) = Finite 0)
   \<and> (rs \<noteq> [] \<and> \<not> isFinite (initialReading rs) \<longrightarrow>
      displayReadings True rs \<noteq> [] \<and> displayValue (displayReadings True rs ! 0) = NaN)
   \<and> list_all (\<lambda>d. displayValue d = subtractNumber (value d) (initialReading rs))
        (displayReadings True rs)
   \<and> list_all (\<lambda>d. displayValue d = value d) (displayReadings False rs)
   \<and> initialReading [] = Finite 0
   \<and> (rs \<noteq> [] \<longrightarrow>
        initialReading rs = value (hd (filter (\<lambda>r. date r = Min (date ` set rs)) rs)))"
proof -
  have a: "rs \<noteq> [] \<and> isFinite (initialReading rs) \<longrightarrow>
      displayReadings True rs \<noteq> [] \<and> displayValue (displayReadings True rs ! 0) = Finite 0"
    using first_zero_based [of rs] by (simp add: subtractNumber_self)
  have a': "rs \<noteq> [] \<and> \<not> isFinite (initialReading rs) \<longrightarrow>
      displayReadings True rs \<noteq> [] \<and> displayValue (displayReadings True rs ! 0) = NaN"
    using first_zero_based [of rs] by (simp add: subtractNumber_self)
  have b: "list_all (\<lambda>d. displayValue d = subtractNumber (value d) (initialReading rs))
        (displayReadings True rs)"
    by (simp add: displayReadings_def list_all_iff)
  have c: "list_all (\<lambda>d. displayValue d = value d) (displayReadings False rs)"
    by (simp add: displayReadings_def list_all_iff)
  have d: "initialReading [] = Finite 0"
    by (simp add: initialReading_def sortedReadings_def Array_sort_def)
  from a a' b c d initialReading_earliest show ?thesis by blast
qed

theorem C6_zero_based_witness:
  "[\<lparr>id' = ''b'', value = Finite 45300, date = 2000\<rparr>,
    \<lparr>id' = ''a'', value = Finite 45213, date = 1000\<rparr>] \<noteq> []
   \<and> isFinite (initialReading [\<lparr>id' = ''b'', value = Finite 45300, date = 2000\<rparr>,
        \<lparr>id' = ''a'', value = Finite 45213, date = 1000\<rparr>])
   \<and> displayValue (displayReadings True
        [\<lparr>id' = ''b'', value = Finite 45300, date = 2000\<rparr>,
         \<lparr>id' = ''a'', value = Finite 45213, date = 1000\<rparr>] ! 0) = Finite 0
   \<and> map displayValue (displayReadings True
        [\<lparr>id' = ''b'', value = Finite 45300, date = 2000\<rparr>,
         \<lparr>id' = ''a'', value = Finite 45213, date = 1000\<rparr>])
       = [Finite 0, Finite 87]"
proof -
  let ?rs = "[\<lparr>id' = ''b'', value = Finite 45300, date = 2000\<rparr>,
    \<lparr>id' = ''a'', value = Finite 45213, date = 1000\<rparr>]"
  have ne: "?rs \<noteq> []" by simp
  have fin: "isFinite (initialReading ?rs)"
    by (simp add: initialReading_def sortedReadings_def Array_sort_def byDate_def)
  have ev: "map displayValue (displayReadings True ?rs) = [Finite 0, Finite 87]"
    by (simp add: displayReadings_def initialReading_def sortedReadings_def Array_sort_def
        byDate_def toNumber_def)
  from ne fin C6_zero_based [where rs = ?rs]
  have "displayValue (displayReadings True ?rs ! 0) = Finite 0" by iprover
  with ne fin ev show ?thesis by iprover
qed

section \<open>The single-flight guard\<close>




lemma commit_fields:
  "reads (commit s) = reads s" "calls (commit s) = calls s" "requests (commit s) = requests s"
  "loading (commit s) = loading s" "picker (commit s) = picker s"
  "readings (commit s) = readings s" "errorMsg (commit s) = errorMsg s"
  "fileInput (commit s) = fileInput s" "crashed (commit s) = crashed s"
  by (simp_all add: commit_def saveEffect_def)




lemma mount_pending:
  "reads (mount stored) = 0" "calls (mount stored) = 0" "requests (mount stored) = 0"
  "\<not> loading (mount stored)" "\<not> picker (mount stored)"
proof -
  have "reads (mount stored) = 0 \<and> calls (mount stored) = 0 \<and> requests (mount stored) = 0
    \<and> \<not> loading (mount stored) \<and> \<not> picker (mount stored)"
  proof (cases "loadEffect (initial stored)")
    case None
    then show ?thesis by (simp add: mount_def initial_def Let_def)
  next
    case (Some v)
    then show ?thesis
      by (cases v) (simp_all add: mount_def initial_def commit_fields setReadings_def Let_def)
  qed
  then show "reads (mount stored) = 0" "calls (mount stored) = 0" "requests (mount stored) = 0"
    "\<not> loading (mount stored)" "\<not> picker (mount stored)"
    by simp_all
qed






lemma click_ignored_while_loading: "loading s \<Longrightarrow> handle apiKey AddClick s = s"
  by simp






section \<open>Failing ingestions\<close>

lemma handleFileUpload_no_key:
  "falsy apiKey \<Longrightarrow>
   handleFileUpload apiKey (Some f) readThrows s =
     s\<lparr>loading := False, errorMsg := Some msgConfiguration, fileInput := None\<rparr>"
  by (simp add: handleFileUpload_def)

lemma no_key_step:
  assumes "falsy apiKey" "reads s = 0" "calls s = 0"
  shows "reads (step apiKey e s) = 0 \<and> calls (step apiKey e s) = 0
    \<and> requests (step apiKey e s) = requests s
    \<and> (readings (step apiKey e s) = readings s \<or> readings (step apiKey e s) = [])"
proof (cases e)
  case (Change fo readThrows)
  then show ?thesis using assms
    by (cases fo) (simp_all add: step_def commit_fields handleFileUpload_def)
qed (use assms in \<open>simp_all add: step_def commit_fields clearAllReadings_def setReadings_def\<close>)

lemma no_key_run:
  assumes "falsy apiKey" "reads s = 0" "calls s = 0"
  shows "reads (run apiKey es s) = 0 \<and> calls (run apiKey es s) = 0
    \<and> requests (run apiKey es s) = requests s
    \<and> (readings (run apiKey es s) = readings s \<or> readings (run apiKey es s) = [])"
  using assms(2,3)
proof (induction es arbitrary: s)
  case Nil
  then show ?case by simp
next
  case (Cons e es)
  from no_key_step [OF assms(1) Cons.prems, of e]
  have st: "reads (step apiKey e s) = 0" "calls (step apiKey e s) = 0"
    "requests (step apiKey e s) = requests s"
    "readings (step apiKey e s) = readings s \<or> readings (step apiKey e s) = []"
    by simp_all
  from Cons.IH [OF st(1,2)] st(3,4) show ?case by auto
qed

text \<open>
  C8. With the credential absent or empty, \<^verbatim>\<open>handleFileUpload\<close> on a picked file only sets
  the configuration message, which is not the message for an unreadable photo, resets
  \<open>loading\<close> and empties the file input: no reader is started. In every run no request is
  ever issued or pending, and no reading is appended: the collection is the loaded one, or
  empty after Clear-All.
\<close>

theorem C8_configuration_error:
  "msgConfiguration \<noteq> msgUnreadable
   \<and> (falsy apiKey \<longrightarrow>
        handleFileUpload apiKey (Some f) readThrows s =
          s\<lparr>loading := False, errorMsg := Some msgConfiguration, fileInput := None\<rparr>
        \<and> requests (run apiKey es (mount stored)) = 0
        \<and> calls (run apiKey es (mount stored)) = 0
        \<and> reads (run apiKey es (mount stored)) = 0
        \<and> (readings (run apiKey es (mount stored)) = readings (mount stored)
             \<or> readings (run apiKey es (mount stored)) = []))"
proof -
  have "msgConfiguration \<noteq> msgUnreadable"
    by (simp add: msgConfiguration_def msgUnreadable_def)
  moreover have "falsy apiKey \<Longrightarrow> requests (run apiKey es (mount stored)) = 0
        \<and> calls (run apiKey es (mount stored)) = 0
        \<and> reads (run apiKey es (mount stored)) = 0
        \<and> (readings (run apiKey es (mount stored)) = readings (mount stored)
             \<or> readings (run apiKey es (mount stored)) = [])"
    using no_key_run [of apiKey "mount stored" es] by (simp add: mount_pending)
  ultimately show ?thesis
    using handleFileUpload_no_key [of apiKey f readThrows s] by blast
qed

theorem C8_configuration_error_witness:
  "falsy (None :: string option)
   \<and> handleFileUpload None (Some \<lparr>fileName = ''odo.jpg'', fileType = ''image/jpeg''\<rparr>) False
        (mount None)
       = (mount None)\<lparr>loading := False, errorMsg := Some msgConfiguration, fileInput := None\<rparr>
   \<and> requests (run None (attempt \<lparr>fileName = ''odo.jpg'', fileType = ''image/jpeg''\<rparr>
        (CallResolves (Some (js ''123456'')) ''a1'' 1000)) (mount None)) = 0
   \<and> errorMsg (run None (attempt \<lparr>fileName = ''odo.jpg'', fileType = ''image/jpeg''\<rparr>
        (CallResolves (Some (js ''123456'')) ''a1'' 1000)) (mount None)) = Some msgConfiguration
   \<and> readings (run None (attempt \<lparr>fileName = ''odo.jpg'', fileType = ''image/jpeg''\<rparr>
        (CallResolves (Some (js ''123456'')) ''a1'' 1000)) (mount None)) = []"
proof -
  let ?f = "\<lparr>fileName = ''odo.jpg'', fileType = ''image/jpeg''\<rparr>"
  let ?es = "attempt ?f (CallResolves (Some (js ''123456'')) ''a1'' 1000)"
  have k: "falsy (None :: string option)"
    by (simp add: falsy_def)
  have "handleFileUpload None (Some ?f) False (mount None)
       = (mount None)\<lparr>loading := False, errorMsg := Some msgConfiguration, fileInput := None\<rparr>
     \<and> requests (run None ?es (mount None)) = 0"
    using k C8_configuration_error [where apiKey = None and f = ?f and readThrows = False
        and s = "mount None" and es = ?es and stored = None]
    by iprover
  moreover have "errorMsg (run None ?es (mount None)) = Some msgConfiguration"
    by (simp add: app_defs falsy_def Let_def)
  moreover have "readings (run None ?es (mount None)) = []"
    by (simp add: app_defs falsy_def Let_def)
  ultimately show ?thesis using k by iprover
qed

lemma readings_failed_events:
  "readings (step apiKey AddClick s) = readings s"
  "readings (step apiKey (Change fo readThrows) s) = readings s"
  "readings (step apiKey ReaderLoad s) = readings s"
  "readings (step apiKey ReaderError s) = readings s"
  "readings (step apiKey Reject s) = readings s"
  "recognise resp = Inl RecognitionFailure \<Longrightarrow>
     readings (step apiKey (Resolve resp newId now) s) = readings s"
  by (cases fo; simp add: step_def commit_fields handleFileUpload_def onload_def onReject_def
      onResolve_def Let_def)+

text \<open>
  C10. A failing ingestion leaves the collection as it was: with the credential absent or
  empty (the change event in any state, and a whole attempt in any reachable state), when the
  response is classified as a failure, when the request rejects, and when the file cannot be
  read.
\<close>

theorem C10_failure_leaves_store:
  "(falsy apiKey \<longrightarrow>
      readings (step apiKey (Change fo readThrows) s) = readings s
      \<and> readings (run apiKey (attempt f oc) (run apiKey es (mount stored)))
          = readings (run apiKey es (mount stored)))
   \<and> (recognise resp = Inl RecognitionFailure \<longrightarrow>
        readings (step apiKey (Resolve resp newId now) s) = readings s
        \<and> readings (run apiKey (attempt f (CallResolves resp newId now)) s) = readings s)
   \<and> readings (step apiKey Reject s) = readings s
   \<and> readings (run apiKey (attempt f CallRejects) s) = readings s
   \<and> readings (run apiKey (attempt f ReadThrows) s) = readings s
   \<and> readings (run apiKey (attempt f ReadFails) s) = readings s"
proof -
  have a: "readings (run apiKey (attempt f oc) (run apiKey es (mount stored)))
          = readings (run apiKey es (mount stored))" if k: "falsy apiKey"
  proof -
    let ?r = "run apiKey es (mount stored)"
    have p: "reads ?r = 0" "calls ?r = 0"
      using no_key_run [OF k, of "mount stored" es] by (simp_all add: mount_pending)
    show ?thesis
    proof (cases oc)
      case (CallResolves resp' id' now')
      then show ?thesis using p k
        by (simp add: step_def commit_fields handleFileUpload_def)
    qed (use p k in \<open>simp_all add: step_def commit_fields handleFileUpload_def\<close>)
  qed
  have b: "readings (run apiKey (attempt f (CallResolves resp newId now)) s) = readings s"
    if "recognise resp = Inl RecognitionFailure"
    using that by (simp add: readings_failed_events)
  have c: "readings (run apiKey (attempt f CallRejects) s) = readings s"
    "readings (run apiKey (attempt f ReadThrows) s) = readings s"
    "readings (run apiKey (attempt f ReadFails) s) = readings s"
    by (simp_all add: readings_failed_events)
  from a b c readings_failed_events(2,5,6) show ?thesis by simp
qed

theorem C10_failure_leaves_store_witness:
  "falsy (None :: string option)
   \<and> recognise (Some (js ''-1'')) = Inl RecognitionFailure
   \<and> readings (run None (attempt \<lparr>fileName = ''odo.jpg'', fileType = ''image/jpeg''\<rparr>
        (CallResolves (Some (js ''123456'')) ''a2'' 2000))
        (run None [] (mount (Some (Serialized [\<lparr>id' = ''a1'', value = Finite 45213, date = 1000\<rparr>])))))
       = readings (run None []
           (mount (Some (Serialized [\<lparr>id' = ''a1'', value = Finite 45213, date = 1000\<rparr>]))))
   \<and> readings (run (Some ''key'') (attempt \<lparr>fileName = ''odo.jpg'', fileType = ''image/jpeg''\<rparr>
        (CallResolves (Some (js ''-1'')) ''a2'' 2000))
        (mount (Some (Serialized [\<lparr>id' = ''a1'', value = Finite 45213, date = 1000\<rparr>]))))
       = readings (mount (Some (Serialized [\<lparr>id' = ''a1'', value = Finite 45213, date = 1000\<rparr>])))
   \<and> readings (mount (Some (Serialized [\<lparr>id' = ''a1'', value = Finite 45213, date = 1000\<rparr>])))
       = [\<lparr>id' = ''a1'', value = Finite 45213, date = 1000\<rparr>]"
proof -
  let ?f = "\<lparr>fileName = ''odo.jpg'', fileType = ''image/jpeg''\<rparr>"
  let ?stored = "Some (Serialized [\<lparr>id' = ''a1'', value = Finite 45213, date = 1000\<rparr>])"
  have k: "falsy (None :: string option)"
    by (simp add: falsy_def)
  have r: "recognise (Some (js ''-1'')) = Inl RecognitionFailure"
    by (simp add: validation_defs)
  have m: "readings (mount ?stored) = [\<lparr>id' = ''a1'', value = Finite 45213, date = 1000\<rparr>]"
    by (simp add: app_defs toNumber_def)
  have a: "readings (run None (attempt ?f (CallResolves (Some (js ''123456'')) ''a2'' 2000))
        (run None [] (mount ?stored))) = readings (run None [] (mount ?stored))"
    using k C10_failure_leaves_store [where apiKey = None and f = ?f
        and oc = "CallResolves (Some (js ''123456'')) ''a2'' 2000" and es = "[]"
        and stored = ?stored and fo = None and readThrows = False and s = "mount ?stored"
        and resp = None and newId = "''a2''" and now = 2000]
    by iprover
  have b: "readings (run (Some ''key'') (attempt ?f (CallResolves (Some (js ''-1'')) ''a2'' 2000))
        (mount ?stored)) = readings (mount ?stored)"
    using r C10_failure_leaves_store [where apiKey = "Some ''key''" and f = ?f
        and oc = CallRejects and es = "[]"
        and stored = ?stored and fo = None and readThrows = False and s = "mount ?stored"
        and resp = "Some (js ''-1'')" and newId = "''a2''" and now = 2000]
    by iprover
  from k r a b m show ?thesis by iprover
qed

end
